theory Spec2Isabelle
  imports Complex_Main
begin

section \<open>Weather tile URL builder\<close>

text \<open>
  The widget of \<^verbatim>\<open>src/pages/Index.tsx\<close> (second document, \<^verbatim>\<open>WeatherMap\<close>) declares two
  constant tables and one pure function that formats the tile URL template.

  A \<^verbatim>\<open>VariableKey\<close> is a string at run time (the union of the three literals of
  \<^verbatim>\<open>VARIABLES\<close>), so it is a \<^typ>\<open>string\<close> here and the closed set is the list of keys.
  A lead-time is a JavaScript \<^verbatim>\<open>number\<close>. The widget's own lead-times are integers (the
  initial 6 and the values of a slider from 0 to 72 in steps of 6) and are represented by
  \<^typ>\<open>int\<close>; the builder is also given over the whole number type, with the language's
  number-to-string conversion as a parameter.
\<close>

type_synonym VariableKey = string

record variable_entry =
  key :: VariableKey
  label :: string

definition VARIABLES :: "variable_entry list" where
  "VARIABLES =
     [\<lparr>key = ''air_temperature'', label = ''Temperature''\<rparr>,
      \<lparr>key = ''wind_stream'', label = ''Wind Stream''\<rparr>,
      \<lparr>key = ''precipitation_shaded'', label = ''Precipitation''\<rparr>]"

definition TIMESTEPS :: "int list" where
  "TIMESTEPS = [0, 6, 12, 24, 36, 48, 60, 72]"

definition WEATHER_SOURCE_ID :: string where
  "WEATHER_SOURCE_ID = ''weather-tiles''"

definition WEATHER_LAYER_ID :: string where
  "WEATHER_LAYER_ID = ''weather-tiles-layer''"

subsection \<open>Interpolating a number into a template literal\<close>

text \<open>
  \<^verbatim>\<open>${timestep}\<close> applies the language's number-to-string conversion. For an integer in
  the safe range (magnitude below \<open>2 ^ 53\<close>) that conversion yields the decimal digits of
  the value, with a leading minus sign for a negative one, and the function below is that
  conversion on the integers of this range, which holds every lead-time of the widget.
  Beyond the range the language rounds to the shortest digit string that identifies the
  double and from \<open>10 ^ 21\<close> on writes an exponent, which the function below does not
  reproduce; statements about every number use \<open>buildWeatherTiles_number\<close> instead.
\<close>

definition digit_char :: "nat \<Rightarrow> char" where
  "digit_char d = ''0123456789'' ! d"

fun nat_to_string :: "nat \<Rightarrow> string" where
  "nat_to_string n =
     (if n < 10 then [digit_char n]
      else nat_to_string (n div 10) @ [digit_char (n mod 10)])"

declare nat_to_string.simps [simp del]

definition Number_toString :: "int \<Rightarrow> string" where
  "Number_toString t =
     (if t < 0 then ''-'' @ nat_to_string (nat (- t)) else nat_to_string (nat t))"

subsection \<open>The builder\<close>

text \<open>
  \<^verbatim>\<open>const buildWeatherTiles = (variable, timestep) =>
  `https://weather.openportguide.de/tiles/actual/${variable}/${timestep}h/{z}/{x}/{y}.png`;\<close>
\<close>

definition buildWeatherTiles :: "VariableKey \<Rightarrow> int \<Rightarrow> string" where
  "buildWeatherTiles variable timestep =
     ''https://weather.openportguide.de/tiles/actual/'' @ variable @ ''/'' @
     Number_toString timestep @ ''h/{z}/{x}/{y}.png''"





section \<open>The map renderer as the widget drives it\<close>

text \<open>
  The mapping SDK is an external collaborator. The widget uses it as a store of sources
  (by identifier) and layers (in drawing order) with query, add and remove operations,
  a fog setting, and an event registration. The store is modelled as lists, so that a
  second entry under one identifier is representable and its absence is a property of
  the widget's calling discipline. Every call the widget makes on the SDK, on
  persistent storage or on the page location is appended to one log, in program order.
\<close>

record source_spec =
  source_type :: string
  tiles :: "string list"
  tileSize :: nat
  attribution :: string

record layer_spec =
  layer_id :: string
  layer_type :: string
  layer_source :: string
  raster_opacity :: rat

record fog_spec =
  color :: string
  high_color :: string
  horizon_blend :: rat

record map_options =
  style :: string
  projection :: string
  zoom :: rat
  center :: "rat \<times> rat"
  pitch :: rat
  attributionControl :: bool

datatype call =
    LocalStorage_getItem string
  | LocalStorage_setItem string string
  | Location_reload
  | Map_new string map_options
  | Map_addControl string
  | Map_on string
  | ScrollZoom_disable
  | Map_setFog fog_spec bool
  | Map_getLayer string
  | Map_removeLayer string
  | Map_getSource string
  | Map_removeSource string
  | Map_addSource string source_spec
  | Map_addLayer layer_spec
  | Map_remove

text \<open>
  A map instance. \<open>style_load_listener\<close> is the closure registered with
  \<^verbatim>\<open>map.on("style.load", ...)\<close>: it holds the \<^verbatim>\<open>variable\<close> and \<^verbatim>\<open>timestep\<close> of the render
  in which the map was created, the values its call of the overlay refresh reads.
\<close>

record map_instance =
  options :: map_options
  sources :: "(string \<times> source_spec) list"
  layers :: "layer_spec list"
  fog :: "fog_spec option"
  controls :: "string list"
  scrollZoom_enabled :: bool
  style_load_listener :: "(VariableKey \<times> int) option"

text \<open>
  What a call does to the map it is made on. The flag of \<open>Map_setFog\<close> says that the
  call threw; a call that threw leaves the map as it was.
\<close>

fun effect_of :: "call \<Rightarrow> map_instance \<Rightarrow> map_instance" where
  "effect_of (Map_removeLayer i) m = m\<lparr>layers := filter (\<lambda>l. layer_id l \<noteq> i) (layers m)\<rparr>"
| "effect_of (Map_removeSource i) m = m\<lparr>sources := filter (\<lambda>p. fst p \<noteq> i) (sources m)\<rparr>"
| "effect_of (Map_addSource i src) m = m\<lparr>sources := sources m @ [(i, src)]\<rparr>"
| "effect_of (Map_addLayer l) m = m\<lparr>layers := layers m @ [l]\<rparr>"
| "effect_of (Map_setFog f threw) m = (if threw then m else m\<lparr>fog := Some f\<rparr>)"
| "effect_of (Map_addControl position) m = m\<lparr>controls := controls m @ [position]\<rparr>"
| "effect_of ScrollZoom_disable m = m\<lparr>scrollZoom_enabled := False\<rparr>"
| "effect_of _ m = m"

type_synonym sdk = "map_instance \<times> call list"

definition invoke :: "call \<Rightarrow> sdk \<Rightarrow> sdk" where
  "invoke c s = (effect_of c (fst s), snd s @ [c])"

definition getLayer :: "string \<Rightarrow> sdk \<Rightarrow> layer_spec option \<times> sdk" where
  "getLayer i s = (find (\<lambda>l. layer_id l = i) (layers (fst s)), invoke (Map_getLayer i) s)"

definition removeLayer :: "string \<Rightarrow> sdk \<Rightarrow> sdk" where
  "removeLayer i s = invoke (Map_removeLayer i) s"

definition getSource :: "string \<Rightarrow> sdk \<Rightarrow> source_spec option \<times> sdk" where
  "getSource i s = (map_of (sources (fst s)) i, invoke (Map_getSource i) s)"

definition removeSource :: "string \<Rightarrow> sdk \<Rightarrow> sdk" where
  "removeSource i s = invoke (Map_removeSource i) s"

definition addSource :: "string \<Rightarrow> source_spec \<Rightarrow> sdk \<Rightarrow> sdk" where
  "addSource i src s = invoke (Map_addSource i src) s"

definition addLayer :: "layer_spec \<Rightarrow> sdk \<Rightarrow> sdk" where
  "addLayer l s = invoke (Map_addLayer l) s"

datatype js_error = JsError

text \<open>
  \<^verbatim>\<open>map.setFog\<close> is the one call the source expects to fail. Whether it throws is the
  SDK's choice, a parameter here; a throw carries the state at the point of the throw.
\<close>

definition setFog :: "bool \<Rightarrow> fog_spec \<Rightarrow> sdk \<Rightarrow> (js_error \<times> sdk) + sdk" where
  "setFog throws f s =
     (if throws then Inl (JsError, invoke (Map_setFog f True) s)
      else Inr (invoke (Map_setFog f False) s))"

section \<open>The widget\<close>

text \<open>
  The state of \<^verbatim>\<open>WeatherMap\<close>: the three \<^verbatim>\<open>useState\<close> cells, the two refs, and around them
  the browser's persistent storage, the SDK's global access token, and the log of calls.
  \<open>mapContainer\<close> says whether the container ref holds its element.
\<close>

record world =
  localStorage :: "string \<rightharpoonup> string"
  accessToken :: "string option"
  calls :: "call list"
  mapContainer :: bool
  mapRef :: "map_instance option"
  mapboxToken :: "string option"
  variable :: VariableKey
  timestep :: int

text \<open>Truthiness of a \<^verbatim>\<open>string | null\<close>: \<^verbatim>\<open>null\<close> and the empty string are falsy.\<close>

definition truthy :: "string option \<Rightarrow> bool" where
  "truthy t = (case t of None \<Rightarrow> False | Some s \<Rightarrow> s \<noteq> [])"

definition weather_source :: "string list \<Rightarrow> source_spec" where
  "weather_source tile_urls =
     \<lparr>source_type = ''raster'', tiles = tile_urls, tileSize = 256,
      attribution = ''Weather tiles '' @ [CHR 0xA9] @ '' OpenPortGuide (demo) | Base map '' @
        [CHR 0xA9] @ '' Mapbox & OpenStreetMap''\<rparr>"

definition weather_layer :: layer_spec where
  "weather_layer =
     \<lparr>layer_id = WEATHER_LAYER_ID, layer_type = ''raster'',
      layer_source = WEATHER_SOURCE_ID, raster_opacity = 85 / 100\<rparr>"

text \<open>
  \<^verbatim>\<open>addOrUpdateWeatherLayer\<close> (lines 113 to 143). The function closes over \<^verbatim>\<open>variable\<close> and
  \<^verbatim>\<open>timestep\<close> of the render that created it, its first two arguments here, and reads
  \<^verbatim>\<open>mapRef.current\<close> when called.
\<close>

definition addOrUpdateWeatherLayer :: "VariableKey \<Rightarrow> int \<Rightarrow> world \<Rightarrow> world" where
  "addOrUpdateWeatherLayer var ts w =
     (case mapRef w of
        None \<Rightarrow> w
      | Some map' \<Rightarrow>
          let tile_urls = [buildWeatherTiles var ts];
              s = (map', calls w);
              (found_layer, s) = getLayer WEATHER_LAYER_ID s;
              s = (if found_layer \<noteq> None then removeLayer WEATHER_LAYER_ID s else s);
              (found_source, s) = getSource WEATHER_SOURCE_ID s;
              s = (if found_source \<noteq> None then removeSource WEATHER_SOURCE_ID s else s);
              s = addSource WEATHER_SOURCE_ID (weather_source tile_urls) s;
              s = addLayer weather_layer s
          in w\<lparr>mapRef := Some (fst s), calls := snd s\<rparr>)"

text \<open>\<^verbatim>\<open>saveToken\<close> (lines 145 to 149).\<close>

definition saveToken :: "world \<Rightarrow> world" where
  "saveToken w =
     (case mapboxToken w of
        None \<Rightarrow> w
      | Some tok \<Rightarrow>
          if tok = [] then w
          else w\<lparr>localStorage := (localStorage w)(''MAPBOX_TOKEN'' \<mapsto> tok),
                 calls := calls w @ [LocalStorage_setItem ''MAPBOX_TOKEN'' tok, Location_reload]\<rparr>)"

definition setMapboxToken :: "string \<Rightarrow> world \<Rightarrow> world" where
  "setMapboxToken s w = w\<lparr>mapboxToken := Some s\<rparr>"

definition setVariable :: "VariableKey \<Rightarrow> world \<Rightarrow> world" where
  "setVariable v w = w\<lparr>variable := v\<rparr>"

definition setTimestep :: "int \<Rightarrow> world \<Rightarrow> world" where
  "setTimestep t w = w\<lparr>timestep := t\<rparr>"

subsection \<open>The two effects\<close>

definition map_config :: map_options where
  "map_config =
     \<lparr>style = ''mapbox://styles/mapbox/light-v11'', projection = ''globe'',
      zoom = 22 / 10, center = (10, 20), pitch = 45, attributionControl = True\<rparr>"

definition fog_config :: fog_spec where
  "fog_config =
     \<lparr>color = ''rgba(255,255,255,1)'', high_color = ''rgba(200,200,230,1)'',
      horizon_blend = 2 / 10\<rparr>"

text \<open>
  The body of the first effect (lines 62 to 98), which depends on \<^verbatim>\<open>mapboxToken\<close>: the
  early exit, the global access token, the constructor, the navigation control, the
  registration of the style-load listener and the scroll-zoom switch.
\<close>

definition init_map_effect :: "world \<Rightarrow> world" where
  "init_map_effect w =
     (case mapboxToken w of
        None \<Rightarrow> w
      | Some tok \<Rightarrow>
          if \<not> mapContainer w \<or> tok = [] then w
          else
            let map' = \<lparr>options = map_config, sources = [], layers = [], fog = None,
                       controls = [], scrollZoom_enabled = True, style_load_listener = None\<rparr>;
                s = (map', calls w @ [Map_new tok map_config]);
                s = invoke (Map_addControl ''top-right'') s;
                s = (fst s\<lparr>style_load_listener := Some (variable w, timestep w)\<rparr>,
                     snd s @ [Map_on ''style.load'']);
                s = invoke ScrollZoom_disable s
            in w\<lparr>accessToken := Some tok, mapRef := Some (fst s), calls := snd s\<rparr>)"

text \<open>
  Its cleanup (lines 99 to 102), returned only by a run that created a map, so it
  exists exactly while \<^verbatim>\<open>mapRef.current\<close> holds that map.
\<close>

definition cleanup_map_effect :: "world \<Rightarrow> world" where
  "cleanup_map_effect w =
     (case mapRef w of
        None \<Rightarrow> w
      | Some map' \<Rightarrow> w\<lparr>mapRef := None, calls := calls w @ [Map_remove]\<rparr>)"

text \<open>The second effect (lines 107 to 111), which depends on \<^verbatim>\<open>variable\<close> and \<^verbatim>\<open>timestep\<close>.\<close>

definition update_layer_effect :: "world \<Rightarrow> world" where
  "update_layer_effect w =
     (if mapRef w = None then w
      else addOrUpdateWeatherLayer (variable w) (timestep w) w)"

text \<open>
  The style-load listener (lines 85 to 94) with its captured \<^verbatim>\<open>variable\<close> and \<^verbatim>\<open>timestep\<close>:
  the guarded fog call, whose exception the empty \<^verbatim>\<open>catch\<close> drops, then the overlay refresh.
  The renderer delivers the event to a live map only, the one \<^verbatim>\<open>mapRef.current\<close> holds; a
  disposed map fires nothing, so without a map the listener does not run.
\<close>

definition on_style_load :: "VariableKey \<Rightarrow> int \<Rightarrow> bool \<Rightarrow> world \<Rightarrow> world" where
  "on_style_load var ts fog_throws w =
     (case mapRef w of
        None \<Rightarrow> w
      | Some map' \<Rightarrow>
          let s = (case setFog fog_throws fog_config (map', calls w) of
                     Inl (e, s') \<Rightarrow> s'
                   | Inr s' \<Rightarrow> s')
          in addOrUpdateWeatherLayer var ts (w\<lparr>mapRef := Some (fst s), calls := snd s\<rparr>))"

subsection \<open>Mounting, events and rendering\<close>

text \<open>
  After a state change the effects whose dependencies changed run again: the cleanup of
  the first effect and then its body when the token changed, the second effect when
  the variable or the lead-time changed.
\<close>

definition run_effects :: "world \<Rightarrow> world \<Rightarrow> world" where
  "run_effects prev w =
     (let w = (if mapboxToken w \<noteq> mapboxToken prev
               then init_map_effect (cleanup_map_effect w) else w)
      in if variable w \<noteq> variable prev \<or> timestep w \<noteq> timestep prev
         then update_layer_effect w else w)"

text \<open>
  Mounting over a given persistent storage: the token cell is initialised from the
  entry \<^verbatim>\<open>MAPBOX_TOKEN\<close>, the variable is \<^verbatim>\<open>air_temperature\<close>, the lead-time is 6, the
  container element is attached, and both effects run once, in source order.
\<close>

definition mount :: "(string \<rightharpoonup> string) \<Rightarrow> world" where
  "mount storage =
     update_layer_effect (init_map_effect
       \<lparr>localStorage = storage, accessToken = None,
        calls = [LocalStorage_getItem ''MAPBOX_TOKEN''],
        mapContainer = True, mapRef = None,
        mapboxToken = storage ''MAPBOX_TOKEN'',
        variable = ''air_temperature'', timestep = 6\<rparr>)"

datatype event =
    Input_onChange string
  | Clear_onClick
  | Save_onClick
  | Select_onValueChange VariableKey
  | Slider_onValueChange int
  | Style_load bool
  | Unmount

fun dispatch :: "event \<Rightarrow> world \<Rightarrow> world" where
  "dispatch (Input_onChange s) w = run_effects w (setMapboxToken s w)"
| "dispatch Clear_onClick w = run_effects w (setMapboxToken [] w)"
| "dispatch Save_onClick w = saveToken w"
| "dispatch (Select_onValueChange v) w = run_effects w (setVariable v w)"
| "dispatch (Slider_onValueChange t) w = run_effects w (setTimestep t w)"
| "dispatch (Style_load fog_throws) w =
     (case mapRef w of
        None \<Rightarrow> w
      | Some map' \<Rightarrow>
          (case style_load_listener map' of
             None \<Rightarrow> w
           | Some (var, ts) \<Rightarrow> on_style_load var ts fog_throws w))"
| "dispatch Unmount w = (cleanup_map_effect w)\<lparr>mapContainer := False\<rparr>"

text \<open>
  What the component returns (lines 151 to 221), as the list of the children of its
  \<^verbatim>\<open>section\<close> element: the token form when the token is falsy, then the map container,
  the control panel and the decorative accent, which no condition guards.
\<close>

record token_form =
  input_placeholder :: string
  input_value :: string
  buttons :: "string list"

record control_panel =
  select_value :: VariableKey
  select_items :: "variable_entry list"
  lead_time_text :: string
  slider_value :: "int list"
  slider_min :: int
  slider_max :: int
  slider_step :: int

datatype element =
    TokenForm token_form
  | MapContainer
  | Controls control_panel
  | AmbientAccent

definition render :: "world \<Rightarrow> element list" where
  "render w =
     (if \<not> truthy (mapboxToken w)
      then [TokenForm \<lparr>input_placeholder = ''pk.eyJ1Ijo...'',
                       input_value = (case mapboxToken w of None \<Rightarrow> [] | Some s \<Rightarrow> s),
                       buttons = [''Clear'', ''Save token'']\<rparr>]
      else []) @
     [MapContainer,
      Controls \<lparr>select_value = variable w, select_items = VARIABLES,
                lead_time_text = Number_toString (timestep w) @ ''h'',
                slider_value = [timestep w], slider_min = 0, slider_max = 72,
                slider_step = 6\<rparr>,
      AmbientAccent]"

subsection \<open>Observations used in the statements\<close>

definition overlay_sources :: "map_instance \<Rightarrow> (string \<times> source_spec) list" where
  "overlay_sources m = filter (\<lambda>p. fst p = WEATHER_SOURCE_ID) (sources m)"

definition overlay_layers :: "map_instance \<Rightarrow> layer_spec list" where
  "overlay_layers m = filter (\<lambda>l. layer_id l = WEATHER_LAYER_ID) (layers m)"

definition at_most_one_overlay :: "map_instance \<Rightarrow> bool" where
  "at_most_one_overlay m =
     (length (overlay_sources m) \<le> 1 \<and> length (overlay_layers m) \<le> 1)"

text \<open>The map after a sequence of calls, and a run of refreshes with changing inputs.\<close>

definition replay :: "call list \<Rightarrow> map_instance \<Rightarrow> map_instance" where
  "replay cs m = fold effect_of cs m"

definition refresh_all :: "(VariableKey \<times> int) list \<Rightarrow> world \<Rightarrow> world" where
  "refresh_all inputs w = fold (\<lambda>(var, ts). addOrUpdateWeatherLayer var ts) inputs w"

definition issued :: "world \<Rightarrow> world \<Rightarrow> call list" where
  "issued w w' = drop (length (calls w)) (calls w')"

text \<open>
  A run of events from a mounted widget, and the writes to persistent storage in a log.
\<close>

definition run_events :: "event list \<Rightarrow> world \<Rightarrow> world" where
  "run_events es w = fold dispatch es w"

fun is_storage_write :: "call \<Rightarrow> bool" where
  "is_storage_write (LocalStorage_setItem k v) = True"
| "is_storage_write _ = False"

definition storage_writes :: "call list \<Rightarrow> call list" where
  "storage_writes cs = filter is_storage_write cs"

text \<open>
  The gate that ties the map to the token: a map is held only while the token is truthy.
\<close>

definition token_gates_map :: "world \<Rightarrow> bool" where
  "token_gates_map w = (mapRef w = None \<or> truthy (mapboxToken w))"

text \<open>
  One refresh in closed form: the calls it makes on a map \<open>m\<close>, and the map it leaves.
  Lemma \<open>addOrUpdateWeatherLayer_Some\<close> shows that the function above computes both.
\<close>

definition refresh_calls :: "VariableKey \<Rightarrow> int \<Rightarrow> map_instance \<Rightarrow> call list" where
  "refresh_calls var ts m =
     [Map_getLayer WEATHER_LAYER_ID] @
     (if overlay_layers m \<noteq> [] then [Map_removeLayer WEATHER_LAYER_ID] else []) @
     [Map_getSource WEATHER_SOURCE_ID] @
     (if overlay_sources m \<noteq> [] then [Map_removeSource WEATHER_SOURCE_ID] else []) @
     [Map_addSource WEATHER_SOURCE_ID (weather_source [buildWeatherTiles var ts]),
      Map_addLayer weather_layer]"

definition refreshed :: "VariableKey \<Rightarrow> int \<Rightarrow> map_instance \<Rightarrow> map_instance" where
  "refreshed var ts m =
     m\<lparr>sources := filter (\<lambda>p. fst p \<noteq> WEATHER_SOURCE_ID) (sources m) @
          [(WEATHER_SOURCE_ID, weather_source [buildWeatherTiles var ts])],
       layers := filter (\<lambda>l. layer_id l \<noteq> WEATHER_LAYER_ID) (layers m) @ [weather_layer]\<rparr>"

subsection \<open>Example states\<close>

text \<open>A live map that already shows the default overlay, and a widget holding it.\<close>

definition demo_map :: map_instance where
  "demo_map =
     \<lparr>options = map_config,
      sources = [(WEATHER_SOURCE_ID, weather_source [buildWeatherTiles ''air_temperature'' 6])],
      layers = [weather_layer], fog = None, controls = [''top-right''],
      scrollZoom_enabled = False, style_load_listener = Some (''air_temperature'', 6)\<rparr>"

definition demo_world :: world where
  "demo_world =
     \<lparr>localStorage = [''MAPBOX_TOKEN'' \<mapsto> ''pk.demo''], accessToken = Some ''pk.demo'',
      calls = [], mapContainer = True, mapRef = Some demo_map,
      mapboxToken = Some ''pk.demo'', variable = ''air_temperature'', timestep = 6\<rparr>"

section \<open>Properties of the URL builder\<close>

text \<open>
  Claim C1. For every variable key of the closed set and every lead-time of
  \<open>0, 6, 12, 24, 36, 48, 60, 72\<close>, the builder returns exactly
  \<^verbatim>\<open>https://weather.openportguide.de/tiles/actual/{v}/{t}h/{z}/{x}/{y}.png\<close> with the key and
  the decimal numeral of the lead-time substituted, the letter \<open>h\<close> after the numeral, and
  the placeholders \<^verbatim>\<open>{z}/{x}/{y}\<close> kept as literal text. The numerals are written out in
  the statement, paired with the lead-times of \<open>TIMESTEPS\<close>.
\<close>

theorem buildWeatherTiles_closed_sets:
  assumes "v \<in> set (map key VARIABLES)"
    and "(t, numeral_text) \<in> set (zip TIMESTEPS
           [''0'', ''6'', ''12'', ''24'', ''36'', ''48'', ''60'', ''72''])"
  shows "buildWeatherTiles v t =
           ''https://weather.openportguide.de/tiles/actual/'' @ v @ ''/'' @ numeral_text @
           ''h/{z}/{x}/{y}.png''
         \<and> v \<in> {''air_temperature'', ''wind_stream'', ''precipitation_shaded''}
         \<and> t \<in> {0, 6, 12, 24, 36, 48, 60, 72}"
proof -
  from assms(2) consider "t = 0 \<and> numeral_text = ''0''" | "t = 6 \<and> numeral_text = ''6''"
    | "t = 12 \<and> numeral_text = ''12''" | "t = 24 \<and> numeral_text = ''24''"
    | "t = 36 \<and> numeral_text = ''36''" | "t = 48 \<and> numeral_text = ''48''"
    | "t = 60 \<and> numeral_text = ''60''" | "t = 72 \<and> numeral_text = ''72''"
    by (auto simp add: TIMESTEPS_def)
  then have "Number_toString t = numeral_text \<and> t \<in> {0, 6, 12, 24, 36, 48, 60, 72}"
    by cases (simp_all add: Number_toString_def nat_to_string.simps digit_char_def)
  moreover from assms(1)
  have "v \<in> {''air_temperature'', ''wind_stream'', ''precipitation_shaded''}"
    by (auto simp add: VARIABLES_def)
  ultimately show ?thesis
    by (simp add: buildWeatherTiles_def)
qed

theorem buildWeatherTiles_closed_sets_witness:
  "''wind_stream'' \<in> set (map key VARIABLES)
   \<and> (36, ''36'') \<in> set (zip TIMESTEPS
        [''0'', ''6'', ''12'', ''24'', ''36'', ''48'', ''60'', ''72''])
   \<and> buildWeatherTiles ''wind_stream'' 36 =
       ''https://weather.openportguide.de/tiles/actual/wind_stream/36h/{z}/{x}/{y}.png''"
proof -
  have v: "''wind_stream'' \<in> set (map key VARIABLES)"
    by (simp add: VARIABLES_def)
  have t: "(36, ''36'') \<in> set (zip TIMESTEPS
        [''0'', ''6'', ''12'', ''24'', ''36'', ''48'', ''60'', ''72''])"
    by (simp add: TIMESTEPS_def)
  from buildWeatherTiles_closed_sets [OF v t] v t show ?thesis
    by simp
qed






section \<open>Properties of the overlay refresh\<close>


lemma overlay_layers_empty_iff:
  "find (\<lambda>l. layer_id l = WEATHER_LAYER_ID) (layers m) = None \<longleftrightarrow> overlay_layers m = []"
  by (auto simp add: overlay_layers_def find_None_iff filter_empty_conv)

lemma overlay_sources_empty_iff:
  "map_of (sources m) WEATHER_SOURCE_ID = None \<longleftrightarrow> overlay_sources m = []"
  by (force simp add: overlay_sources_def map_of_eq_None_iff filter_empty_conv)

lemma no_overlay_layer_filter:
  "overlay_layers m = [] \<Longrightarrow> filter (\<lambda>l. layer_id l \<noteq> WEATHER_LAYER_ID) (layers m) = layers m"
  by (simp add: overlay_layers_def filter_empty_conv filter_id_conv)

lemma no_overlay_source_filter:
  "overlay_sources m = [] \<Longrightarrow> filter (\<lambda>p. fst p \<noteq> WEATHER_SOURCE_ID) (sources m) = sources m"
  by (simp add: overlay_sources_def filter_empty_conv filter_id_conv)

lemma replay_refresh_calls: "replay (refresh_calls var ts m) m = refreshed var ts m"
  by (simp add: replay_def refresh_calls_def refreshed_def
      no_overlay_layer_filter no_overlay_source_filter)

lemma overlay_sources_layers_update [simp]:
  "overlay_sources (m\<lparr>layers := ls\<rparr>) = overlay_sources m"
  by (simp add: overlay_sources_def)

lemma overlay_layers_sources_update [simp]:
  "overlay_layers (m\<lparr>sources := ss\<rparr>) = overlay_layers m"
  by (simp add: overlay_layers_def)

lemma addOrUpdateWeatherLayer_Some:
  assumes "mapRef w = Some m"
  shows "addOrUpdateWeatherLayer var ts w =
           w\<lparr>mapRef := Some (refreshed var ts m),
             calls := calls w @ refresh_calls var ts m\<rparr>"
proof -
  have l: "(find (\<lambda>l. layer_id l = WEATHER_LAYER_ID) (layers m) \<noteq> None) = (overlay_layers m \<noteq> [])"
    using overlay_layers_empty_iff [of m] by simp
  have s: "(map_of (sources m) WEATHER_SOURCE_ID \<noteq> None) = (overlay_sources m \<noteq> [])"
    using overlay_sources_empty_iff [of m] by simp
  show ?thesis
  proof (cases "overlay_layers m = []")
    case True
    note no_layer = this
    show ?thesis
    proof (cases "overlay_sources m = []")
      case True
      with no_layer l s assms show ?thesis
        by (simp add: addOrUpdateWeatherLayer_def Let_def getLayer_def removeLayer_def
            getSource_def removeSource_def addSource_def addLayer_def invoke_def
            refresh_calls_def refreshed_def no_overlay_layer_filter no_overlay_source_filter
            del: not_None_eq)
    next
      case False
      with no_layer l s assms show ?thesis
        by (simp add: addOrUpdateWeatherLayer_def Let_def getLayer_def removeLayer_def
            getSource_def removeSource_def addSource_def addLayer_def invoke_def
            refresh_calls_def refreshed_def no_overlay_layer_filter
            del: not_None_eq)
    qed
  next
    case False
    note some_layer = this
    show ?thesis
    proof (cases "overlay_sources m = []")
      case True
      with some_layer l s assms show ?thesis
        by (simp add: addOrUpdateWeatherLayer_def Let_def getLayer_def removeLayer_def
            getSource_def removeSource_def addSource_def addLayer_def invoke_def
            refresh_calls_def refreshed_def no_overlay_source_filter
            del: not_None_eq)
    next
      case False
      with some_layer l s assms show ?thesis
        by (simp add: addOrUpdateWeatherLayer_def Let_def getLayer_def removeLayer_def
            getSource_def removeSource_def addSource_def addLayer_def invoke_def
            refresh_calls_def refreshed_def
            del: not_None_eq)
    qed
  qed
qed


lemma replay_append: "replay (cs @ ds) m = replay ds (replay cs m)"
  by (simp add: replay_def)

lemma overlay_sources_removed:
  "overlay_sources (m\<lparr>sources := filter (\<lambda>p. fst p \<noteq> WEATHER_SOURCE_ID) (sources m)\<rparr>) = []"
  by (simp add: overlay_sources_def)

lemma overlay_layers_removed:
  "overlay_layers (m\<lparr>layers := filter (\<lambda>l. layer_id l \<noteq> WEATHER_LAYER_ID) (layers m)\<rparr>) = []"
  by (simp add: overlay_layers_def)

lemma overlay_sources_refreshed:
  "overlay_sources (refreshed var ts m) =
     [(WEATHER_SOURCE_ID, weather_source [buildWeatherTiles var ts])]"
  by (simp add: overlay_sources_def refreshed_def)

lemma overlay_layers_refreshed: "overlay_layers (refreshed var ts m) = [weather_layer]"
  by (simp add: overlay_layers_def refreshed_def weather_layer_def)

lemma overlay_layers_update:
  "overlay_layers (m\<lparr>layers := ls\<rparr>) = filter (\<lambda>l. layer_id l = WEATHER_LAYER_ID) ls"
  by (simp add: overlay_layers_def)

lemma overlay_sources_update:
  "overlay_sources (m\<lparr>sources := ss\<rparr>) = filter (\<lambda>p. fst p = WEATHER_SOURCE_ID) ss"
  by (simp add: overlay_sources_def)

lemma refresh_calls_prefix_inv:
  assumes "at_most_one_overlay m"
  shows "at_most_one_overlay (replay (take n (refresh_calls var ts m)) m)"
proof -
  have id: "layer_id weather_layer = WEATHER_LAYER_ID"
    by (simp add: weather_layer_def)
  have ls: "filter (\<lambda>l. layer_id l = WEATHER_LAYER_ID) (layers m) = overlay_layers m"
    by (simp add: overlay_layers_def)
  have ss: "filter (\<lambda>p. fst p = WEATHER_SOURCE_ID) (sources m) = overlay_sources m"
    by (simp add: overlay_sources_def)
  note unfold = refresh_calls_def replay_def take_Cons at_most_one_overlay_def
    overlay_layers_update overlay_sources_update id ls ss
  show ?thesis
  proof (cases "overlay_layers m = []")
    case True
    note no_layer = this
    show ?thesis
    proof (cases "overlay_sources m = []")
      case True
      with no_layer assms show ?thesis
        by (simp add: unfold split: nat.splits)
    next
      case False
      with no_layer assms show ?thesis
        by (simp add: unfold split: nat.splits)
    qed
  next
    case False
    note some_layer = this
    show ?thesis
    proof (cases "overlay_sources m = []")
      case True
      with some_layer assms show ?thesis
        by (simp add: unfold split: nat.splits)
    next
      case False
      with some_layer assms show ?thesis
        by (simp add: unfold split: nat.splits)
    qed
  qed
qed

lemma refreshed_inv: "at_most_one_overlay (refreshed var ts m)"
  by (simp add: at_most_one_overlay_def overlay_sources_refreshed overlay_layers_refreshed)

lemma refresh_all_trace:
  "mapRef w = Some m \<Longrightarrow> at_most_one_overlay m \<Longrightarrow>
   \<exists>cs. calls (refresh_all inputs w) = calls w @ cs
        \<and> mapRef (refresh_all inputs w) = Some (replay cs m)
        \<and> (\<forall>n. at_most_one_overlay (replay (take n cs) m))"
proof (induction inputs arbitrary: w m)
  case Nil
  then show ?case
    by (simp add: refresh_all_def replay_def)
next
  case (Cons input inputs)
  obtain var ts where input: "input = (var, ts)"
    by (cases input)
  let ?w1 = "addOrUpdateWeatherLayer var ts w"
  let ?cs1 = "refresh_calls var ts m"
  let ?m1 = "refreshed var ts m"
  have w1: "?w1 = w\<lparr>mapRef := Some ?m1, calls := calls w @ ?cs1\<rparr>"
    using Cons.prems(1) by (rule addOrUpdateWeatherLayer_Some)
  have m1: "mapRef ?w1 = Some ?m1"
    by (simp add: w1)
  from Cons.IH [OF m1 refreshed_inv]
  obtain cs2 where cs2: "calls (refresh_all inputs ?w1) = calls ?w1 @ cs2"
    and r2: "mapRef (refresh_all inputs ?w1) = Some (replay cs2 ?m1)"
    and i2: "\<And>n. at_most_one_overlay (replay (take n cs2) ?m1)"
    by blast
  have step: "refresh_all (input # inputs) w = refresh_all inputs ?w1"
    by (simp add: refresh_all_def input)
  have r1: "replay ?cs1 m = ?m1"
    by (rule replay_refresh_calls)
  have "calls (refresh_all (input # inputs) w) = calls w @ (?cs1 @ cs2)"
    using cs2 by (simp add: step w1)
  moreover have "mapRef (refresh_all (input # inputs) w) = Some (replay (?cs1 @ cs2) m)"
    using r2 by (simp add: step replay_append r1)
  moreover have "at_most_one_overlay (replay (take n (?cs1 @ cs2)) m)" for n
  proof (cases "n \<le> length ?cs1")
    case True
    then show ?thesis
      using refresh_calls_prefix_inv [OF Cons.prems(2)] by simp
  next
    case False
    then have "take n (?cs1 @ cs2) = ?cs1 @ take (n - length ?cs1) cs2"
      by simp
    then show ?thesis
      using i2 [of "n - length ?cs1"] by (simp add: replay_append r1)
  qed
  ultimately show ?case
    by blast
qed


lemma issued_append: "calls w' = calls w @ cs \<Longrightarrow> issued w w' = cs"
  by (simp add: issued_def)

text \<open>
  Claim C2. On a live map with at most one overlay source and at most one overlay layer,
  one refresh asks for the layer, removes it when it exists, asks for the source,
  removes it when it exists, then adds the new source and after it the new layer: the
  removals come before the additions, the layer's before the source's, and the source is
  added before the layer. Over every sequence of refreshes, with any inputs, the map the
  widget holds is the initial map after the calls issued, and after every prefix of
  those calls the map has at most one source \<^verbatim>\<open>weather-tiles\<close> and at most one layer
  \<^verbatim>\<open>weather-tiles-layer\<close>.
\<close>

theorem overlay_single_and_ordered:
  assumes "mapRef w = Some m" and "at_most_one_overlay m"
  shows "issued w (addOrUpdateWeatherLayer var ts w) =
           [Map_getLayer WEATHER_LAYER_ID] @
           (if overlay_layers m \<noteq> [] then [Map_removeLayer WEATHER_LAYER_ID] else []) @
           [Map_getSource WEATHER_SOURCE_ID] @
           (if overlay_sources m \<noteq> [] then [Map_removeSource WEATHER_SOURCE_ID] else []) @
           [Map_addSource WEATHER_SOURCE_ID (weather_source [buildWeatherTiles var ts]),
            Map_addLayer weather_layer]
         \<and> mapRef (refresh_all inputs w) = Some (replay (issued w (refresh_all inputs w)) m)
         \<and> at_most_one_overlay (replay (take n (issued w (refresh_all inputs w))) m)"
proof -
  have "calls (addOrUpdateWeatherLayer var ts w) = calls w @ refresh_calls var ts m"
    by (simp add: addOrUpdateWeatherLayer_Some [OF assms(1)])
  then have "issued w (addOrUpdateWeatherLayer var ts w) = refresh_calls var ts m"
    by (rule issued_append)
  then have first: "issued w (addOrUpdateWeatherLayer var ts w) =
           [Map_getLayer WEATHER_LAYER_ID] @
           (if overlay_layers m \<noteq> [] then [Map_removeLayer WEATHER_LAYER_ID] else []) @
           [Map_getSource WEATHER_SOURCE_ID] @
           (if overlay_sources m \<noteq> [] then [Map_removeSource WEATHER_SOURCE_ID] else []) @
           [Map_addSource WEATHER_SOURCE_ID (weather_source [buildWeatherTiles var ts]),
            Map_addLayer weather_layer]"
    by (simp only: refresh_calls_def)
  from refresh_all_trace [OF assms, of inputs]
  obtain cs where cs: "calls (refresh_all inputs w) = calls w @ cs"
    and r: "mapRef (refresh_all inputs w) = Some (replay cs m)"
    and i: "\<And>k. at_most_one_overlay (replay (take k cs) m)"
    by blast
  from cs have "issued w (refresh_all inputs w) = cs"
    by (rule issued_append)
  with first r i [of n] show ?thesis
    by simp
qed

theorem overlay_single_and_ordered_witness:
  "mapRef demo_world = Some demo_map
   \<and> at_most_one_overlay demo_map
   \<and> issued demo_world (addOrUpdateWeatherLayer ''wind_stream'' 12 demo_world) =
       [Map_getLayer ''weather-tiles-layer'', Map_removeLayer ''weather-tiles-layer'',
        Map_getSource ''weather-tiles'', Map_removeSource ''weather-tiles'',
        Map_addSource ''weather-tiles'' (weather_source
          [''https://weather.openportguide.de/tiles/actual/wind_stream/12h/{z}/{x}/{y}.png'']),
        Map_addLayer weather_layer]
   \<and> at_most_one_overlay (replay (take 5
         (issued demo_world (refresh_all [(''wind_stream'', 12), (''wind_stream'', 24)] demo_world)))
         demo_map)"
proof -
  have m: "mapRef demo_world = Some demo_map"
    by (simp add: demo_world_def)
  have os: "overlay_sources demo_map \<noteq> []"
    by (simp add: overlay_sources_def demo_map_def)
  have ol: "overlay_layers demo_map \<noteq> []"
    by (simp add: overlay_layers_def demo_map_def weather_layer_def)
  have i: "at_most_one_overlay demo_map"
    by (simp add: at_most_one_overlay_def overlay_sources_def overlay_layers_def demo_map_def
        weather_layer_def)
  have u: "buildWeatherTiles ''wind_stream'' 12 =
      ''https://weather.openportguide.de/tiles/actual/wind_stream/12h/{z}/{x}/{y}.png''"
    by (simp add: buildWeatherTiles_def Number_toString_def nat_to_string.simps digit_char_def)
  note th = overlay_single_and_ordered [OF m i, of "''wind_stream''" 12
      "[(''wind_stream'', 12), (''wind_stream'', 24)]" 5]
  from th os ol u have a: "issued demo_world (addOrUpdateWeatherLayer ''wind_stream'' 12 demo_world) =
       [Map_getLayer ''weather-tiles-layer'', Map_removeLayer ''weather-tiles-layer'',
        Map_getSource ''weather-tiles'', Map_removeSource ''weather-tiles'',
        Map_addSource ''weather-tiles'' (weather_source
          [''https://weather.openportguide.de/tiles/actual/wind_stream/12h/{z}/{x}/{y}.png'']),
        Map_addLayer weather_layer]"
    by (simp add: WEATHER_LAYER_ID_def WEATHER_SOURCE_ID_def)
  from th have b: "at_most_one_overlay (replay (take 5
         (issued demo_world (refresh_all [(''wind_stream'', 12), (''wind_stream'', 24)] demo_world)))
         demo_map)"
    by blast
  from m i a b show ?thesis
    by blast
qed

text \<open>
  Claim C4. When the widget holds no map (\<^verbatim>\<open>mapRef.current\<close> is null), the overlay refresh
  returns the state it was given, for every variable and lead-time: nothing is queried,
  removed or added, and no call at all is issued.
\<close>

theorem overlay_refresh_noop_without_map:
  assumes "mapRef w = None"
  shows "addOrUpdateWeatherLayer var ts w = w
         \<and> issued w (addOrUpdateWeatherLayer var ts w) = []"
  using assms by (simp add: addOrUpdateWeatherLayer_def issued_def)

theorem overlay_refresh_noop_without_map_witness:
  "mapRef (mount Map.empty) = None
   \<and> addOrUpdateWeatherLayer ''wind_stream'' 12 (mount Map.empty) = mount Map.empty
   \<and> issued (mount Map.empty) (addOrUpdateWeatherLayer ''wind_stream'' 12 (mount Map.empty)) = []"
proof -
  have m: "mapRef (mount Map.empty) = None"
    by (simp add: mount_def init_map_effect_def update_layer_effect_def)
  from overlay_refresh_noop_without_map [OF m, of "''wind_stream''" 12] m show ?thesis
    by blast
qed

lemma map_of_after_removal: "map_of (filter (\<lambda>p. fst p \<noteq> k) xs) k = None"
  by (induction xs) simp_all

lemma map_of_refreshed:
  "map_of (sources (refreshed var ts m)) WEATHER_SOURCE_ID =
     Some (weather_source [buildWeatherTiles var ts])"
  by (simp add: refreshed_def map_add_def map_of_after_removal)

lemma find_after_removal: "P y \<Longrightarrow> find P (filter (\<lambda>x. \<not> P x) xs @ [y]) = Some y"
  by (induction xs) simp_all

lemma find_refreshed:
  "find (\<lambda>l. layer_id l = WEATHER_LAYER_ID) (layers (refreshed var ts m)) = Some weather_layer"
proof -
  have "layer_id weather_layer = WEATHER_LAYER_ID"
    by (simp add: weather_layer_def)
  then show ?thesis
    using find_after_removal [of "\<lambda>l. layer_id l = WEATHER_LAYER_ID" weather_layer "layers m"]
    by (simp add: refreshed_def)
qed

lemma refreshed_idem: "refreshed var ts (refreshed var ts m) = refreshed var ts m"
  by (simp add: refreshed_def weather_layer_def)

text \<open>
  Claim C3. With a map in place, running the refresh twice with the same variable and
  lead-time leaves the same map as running it once, and the same widget state apart from
  the log of calls. After the refresh exactly one overlay source and exactly one overlay
  layer exist; asking the map for them returns that source, whose only tile URL is the
  builder's for the given variable and lead-time, and that layer, which names the
  overlay source.
\<close>

theorem overlay_refresh_idempotent:
  assumes "mapRef w = Some m"
  shows "mapRef (addOrUpdateWeatherLayer var ts (addOrUpdateWeatherLayer var ts w)) =
           mapRef (addOrUpdateWeatherLayer var ts w)
         \<and> (addOrUpdateWeatherLayer var ts (addOrUpdateWeatherLayer var ts w))\<lparr>calls := []\<rparr> =
             (addOrUpdateWeatherLayer var ts w)\<lparr>calls := []\<rparr>
         \<and> (\<exists>m'. mapRef (addOrUpdateWeatherLayer var ts w) = Some m'
               \<and> overlay_sources m' =
                   [(WEATHER_SOURCE_ID, weather_source [buildWeatherTiles var ts])]
               \<and> overlay_layers m' = [weather_layer]
               \<and> getSource WEATHER_SOURCE_ID (m', cs) =
                   (Some (weather_source [buildWeatherTiles var ts]),
                    (m', cs @ [Map_getSource WEATHER_SOURCE_ID]))
               \<and> getLayer WEATHER_LAYER_ID (m', cs) =
                   (Some weather_layer, (m', cs @ [Map_getLayer WEATHER_LAYER_ID])))
         \<and> layer_source weather_layer = WEATHER_SOURCE_ID
         \<and> tiles (weather_source [buildWeatherTiles var ts]) = [buildWeatherTiles var ts]"
proof -
  let ?w1 = "addOrUpdateWeatherLayer var ts w"
  have w1: "?w1 = w\<lparr>mapRef := Some (refreshed var ts m),
                      calls := calls w @ refresh_calls var ts m\<rparr>"
    using assms by (rule addOrUpdateWeatherLayer_Some)
  have m1: "mapRef ?w1 = Some (refreshed var ts m)"
    by (simp add: w1)
  have w2: "addOrUpdateWeatherLayer var ts ?w1 =
              ?w1\<lparr>mapRef := Some (refreshed var ts (refreshed var ts m)),
                   calls := calls ?w1 @ refresh_calls var ts (refreshed var ts m)\<rparr>"
    using m1 by (rule addOrUpdateWeatherLayer_Some)
  have a: "mapRef (addOrUpdateWeatherLayer var ts ?w1) = mapRef ?w1"
    by (simp add: w2 m1 refreshed_idem)
  have b: "(addOrUpdateWeatherLayer var ts ?w1)\<lparr>calls := []\<rparr> = ?w1\<lparr>calls := []\<rparr>"
    by (subst w2) (simp add: w1 refreshed_idem)
  have c: "getSource WEATHER_SOURCE_ID (refreshed var ts m, cs) =
             (Some (weather_source [buildWeatherTiles var ts]),
              (refreshed var ts m, cs @ [Map_getSource WEATHER_SOURCE_ID]))"
    by (simp add: getSource_def invoke_def map_of_refreshed)
  have d: "getLayer WEATHER_LAYER_ID (refreshed var ts m, cs) =
             (Some weather_layer, (refreshed var ts m, cs @ [Map_getLayer WEATHER_LAYER_ID]))"
    by (simp add: getLayer_def invoke_def find_refreshed)
  have e: "layer_source weather_layer = WEATHER_SOURCE_ID"
    by (simp add: weather_layer_def)
  have f: "tiles (weather_source [buildWeatherTiles var ts]) = [buildWeatherTiles var ts]"
    by (simp add: weather_source_def)
  from a b m1 c d e f overlay_sources_refreshed [of var ts m] overlay_layers_refreshed [of var ts m]
  show ?thesis
    by blast
qed


theorem overlay_refresh_idempotent_witness:
  "mapRef demo_world = Some demo_map
   \<and> mapRef (addOrUpdateWeatherLayer ''wind_stream'' 12
         (addOrUpdateWeatherLayer ''wind_stream'' 12 demo_world)) =
       mapRef (addOrUpdateWeatherLayer ''wind_stream'' 12 demo_world)
   \<and> layer_source weather_layer = WEATHER_SOURCE_ID
   \<and> tiles (weather_source [buildWeatherTiles ''wind_stream'' 12]) =
       [''https://weather.openportguide.de/tiles/actual/wind_stream/12h/{z}/{x}/{y}.png'']"
proof -
  have m: "mapRef demo_world = Some demo_map"
    by (simp add: demo_world_def)
  have u: "buildWeatherTiles ''wind_stream'' 12 =
      ''https://weather.openportguide.de/tiles/actual/wind_stream/12h/{z}/{x}/{y}.png''"
    by (simp add: buildWeatherTiles_def Number_toString_def nat_to_string.simps digit_char_def)
  note th = overlay_refresh_idempotent [OF m, of "''wind_stream''" 12 "[]"]
  from th have a: "mapRef (addOrUpdateWeatherLayer ''wind_stream'' 12
         (addOrUpdateWeatherLayer ''wind_stream'' 12 demo_world)) =
       mapRef (addOrUpdateWeatherLayer ''wind_stream'' 12 demo_world)"
    by blast
  from th have b: "layer_source weather_layer = WEATHER_SOURCE_ID"
    by blast
  from th have "tiles (weather_source [buildWeatherTiles ''wind_stream'' 12]) =
      [buildWeatherTiles ''wind_stream'' 12]"
    by blast
  with u have c: "tiles (weather_source [buildWeatherTiles ''wind_stream'' 12]) =
       [''https://weather.openportguide.de/tiles/actual/wind_stream/12h/{z}/{x}/{y}.png'']"
    by simp
  from m a b c show ?thesis
    by blast
qed

section \<open>Properties of the style-load listener\<close>

lemma refreshed_fog: "fog (refreshed var ts m) = fog m"
  by (simp add: refreshed_def)

lemma refreshed_fog_update:
  "refreshed var ts (m\<lparr>fog := f\<rparr>) = (refreshed var ts m)\<lparr>fog := f\<rparr>"
  by (simp add: refreshed_def)

text \<open>
  Claim C8. In the style-load listener a throw of the fog call is caught and dropped: the
  listener goes on to the overlay refresh, applied to the state in which only the
  attempted fog call has been logged. The map it leaves equals the map of a run whose
  fog call succeeded except for the fog setting, which keeps its old value; it carries
  the one overlay source and layer; and nothing else of the widget state changes.
\<close>

theorem fog_failure_discarded:
  assumes "mapRef w = Some m"
  shows "on_style_load var ts True w =
           addOrUpdateWeatherLayer var ts (w\<lparr>calls := calls w @ [Map_setFog fog_config True]\<rparr>)
         \<and> on_style_load var ts False w =
             addOrUpdateWeatherLayer var ts
               (w\<lparr>mapRef := Some (m\<lparr>fog := Some fog_config\<rparr>),
                  calls := calls w @ [Map_setFog fog_config False]\<rparr>)
         \<and> (\<exists>m'. mapRef (on_style_load var ts True w) = Some m'
               \<and> fog m' = fog m
               \<and> mapRef (on_style_load var ts False w) = Some (m'\<lparr>fog := Some fog_config\<rparr>)
               \<and> overlay_sources m' =
                   [(WEATHER_SOURCE_ID, weather_source [buildWeatherTiles var ts])]
               \<and> overlay_layers m' = [weather_layer])
         \<and> (on_style_load var ts True w)\<lparr>mapRef := None, calls := []\<rparr> =
             w\<lparr>mapRef := None, calls := []\<rparr>"
proof -
  let ?wt = "w\<lparr>calls := calls w @ [Map_setFog fog_config True]\<rparr>"
  let ?wf = "w\<lparr>mapRef := Some (m\<lparr>fog := Some fog_config\<rparr>),
               calls := calls w @ [Map_setFog fog_config False]\<rparr>"
  have eq: "w\<lparr>mapRef := Some m\<rparr> = w"
    using assms by (cases w) simp
  have "on_style_load var ts True w =
          addOrUpdateWeatherLayer var ts
            (w\<lparr>mapRef := Some m, calls := calls w @ [Map_setFog fog_config True]\<rparr>)"
    using assms by (simp add: on_style_load_def setFog_def invoke_def)
  then have t: "on_style_load var ts True w = addOrUpdateWeatherLayer var ts ?wt"
    by (simp only: eq)
  have f: "on_style_load var ts False w = addOrUpdateWeatherLayer var ts ?wf"
    using assms by (simp add: on_style_load_def setFog_def invoke_def)
  have mt: "mapRef ?wt = Some m"
    using assms by simp
  have mf: "mapRef ?wf = Some (m\<lparr>fog := Some fog_config\<rparr>)"
    by simp
  note rt = addOrUpdateWeatherLayer_Some [OF mt, of var ts]
  note rf = addOrUpdateWeatherLayer_Some [OF mf, of var ts]
  have a: "mapRef (on_style_load var ts True w) = Some (refreshed var ts m)"
    by (simp add: t rt)
  have b: "mapRef (on_style_load var ts False w) =
             Some ((refreshed var ts m)\<lparr>fog := Some fog_config\<rparr>)"
    by (simp add: f rf refreshed_fog_update)
  have c: "(on_style_load var ts True w)\<lparr>mapRef := None, calls := []\<rparr> =
             w\<lparr>mapRef := None, calls := []\<rparr>"
    by (simp add: t rt)
  from t f a b c refreshed_fog [of var ts m]
    overlay_sources_refreshed [of var ts m] overlay_layers_refreshed [of var ts m]
  show ?thesis
    by blast
qed

theorem fog_failure_discarded_witness:
  "mapRef demo_world = Some demo_map
   \<and> on_style_load ''air_temperature'' 6 True demo_world =
       addOrUpdateWeatherLayer ''air_temperature'' 6
         (demo_world\<lparr>calls := calls demo_world @ [Map_setFog fog_config True]\<rparr>)
   \<and> (on_style_load ''air_temperature'' 6 True demo_world)\<lparr>mapRef := None, calls := []\<rparr> =
       demo_world\<lparr>mapRef := None, calls := []\<rparr>"
proof -
  have m: "mapRef demo_world = Some demo_map"
    by (simp add: demo_world_def)
  from fog_failure_discarded [OF m, of "''air_temperature''" 6] m show ?thesis
    by blast
qed

section \<open>Properties of the token gate\<close>

lemma mount_falsy:
  assumes "\<not> truthy (storage ''MAPBOX_TOKEN'')"
  shows "mount storage =
           \<lparr>localStorage = storage, accessToken = None,
            calls = [LocalStorage_getItem ''MAPBOX_TOKEN''],
            mapContainer = True, mapRef = None,
            mapboxToken = storage ''MAPBOX_TOKEN'',
            variable = ''air_temperature'', timestep = 6\<rparr>"
  using assms
  by (simp add: mount_def init_map_effect_def update_layer_effect_def truthy_def
      split: option.splits)

text \<open>
  Mounted over a storage with no token, the widget returns four children: the token form,
  and with it the map container, the control panel and the decorative accent. The form is
  not the only thing rendered.
\<close>

theorem mount_without_token_renders_more_than_form:
  "\<not> truthy (Map.empty ''MAPBOX_TOKEN'')
   \<and> render (mount Map.empty) =
       [TokenForm \<lparr>input_placeholder = ''pk.eyJ1Ijo...'', input_value = [],
                   buttons = [''Clear'', ''Save token'']\<rparr>,
        MapContainer,
        Controls \<lparr>select_value = ''air_temperature'', select_items = VARIABLES,
                  lead_time_text = ''6h'', slider_value = [6], slider_min = 0,
                  slider_max = 72, slider_step = 6\<rparr>,
        AmbientAccent]
   \<and> render (mount Map.empty) \<noteq>
       [TokenForm \<lparr>input_placeholder = ''pk.eyJ1Ijo...'', input_value = [],
                   buttons = [''Clear'', ''Save token'']\<rparr>]"
proof -
  have f: "\<not> truthy (Map.empty ''MAPBOX_TOKEN'')"
    by (simp add: truthy_def)
  have n: "Number_toString 6 = ''6''"
    by (simp add: Number_toString_def nat_to_string.simps digit_char_def)
  show ?thesis
    by (simp add: mount_falsy [of Map.empty, OF f] render_def truthy_def n)
qed

text \<open>
  Claim C5, as the code has it. Mounted over a storage whose token entry is absent or
  empty, the widget renders the token form (the text field with the buttons \<open>Clear\<close> and
  \<open>Save token\<close>) followed by the map container, the control panel and the decorative
  accent, which it renders whatever the token is; and it initialises no map: no map is
  held, the SDK's access token is not set, and the only call made is the read of the
  storage entry.
\<close>

theorem mount_without_token:
  assumes "\<not> truthy (storage ''MAPBOX_TOKEN'')"
  shows "render (mount storage) =
           [TokenForm \<lparr>input_placeholder = ''pk.eyJ1Ijo...'', input_value = [],
                       buttons = [''Clear'', ''Save token'']\<rparr>,
            MapContainer,
            Controls \<lparr>select_value = ''air_temperature'', select_items = VARIABLES,
                      lead_time_text = ''6h'', slider_value = [6], slider_min = 0,
                      slider_max = 72, slider_step = 6\<rparr>,
            AmbientAccent]
         \<and> mapRef (mount storage) = None
         \<and> accessToken (mount storage) = None
         \<and> calls (mount storage) = [LocalStorage_getItem ''MAPBOX_TOKEN'']"
proof -
  have n: "Number_toString 6 = ''6''"
    by (simp add: Number_toString_def nat_to_string.simps digit_char_def)
  from assms show ?thesis
    by (auto simp add: mount_falsy [of storage, OF assms] render_def truthy_def n split: option.splits)
qed

theorem mount_without_token_witness:
  "\<not> truthy ([''MAPBOX_TOKEN'' \<mapsto> []] ''MAPBOX_TOKEN'')
   \<and> mapRef (mount [''MAPBOX_TOKEN'' \<mapsto> []]) = None
   \<and> calls (mount [''MAPBOX_TOKEN'' \<mapsto> []]) = [LocalStorage_getItem ''MAPBOX_TOKEN'']
   \<and> hd (render (mount [''MAPBOX_TOKEN'' \<mapsto> []])) =
       TokenForm \<lparr>input_placeholder = ''pk.eyJ1Ijo...'', input_value = [],
                  buttons = [''Clear'', ''Save token'']\<rparr>"
proof -
  have f: "\<not> truthy ([''MAPBOX_TOKEN'' \<mapsto> []] ''MAPBOX_TOKEN'')"
    by (simp add: truthy_def)
  note th = mount_without_token [of "[''MAPBOX_TOKEN'' \<mapsto> []]", OF f]
  from th have "hd (render (mount [''MAPBOX_TOKEN'' \<mapsto> []])) =
       TokenForm \<lparr>input_placeholder = ''pk.eyJ1Ijo...'', input_value = [],
                  buttons = [''Clear'', ''Save token'']\<rparr>"
    by simp
  with th f show ?thesis
    by blast
qed

subsection \<open>What the refresh and the effects leave alone\<close>

lemma refresh_frame:
  "localStorage (addOrUpdateWeatherLayer var ts w) = localStorage w
   \<and> mapboxToken (addOrUpdateWeatherLayer var ts w) = mapboxToken w
   \<and> (mapRef (addOrUpdateWeatherLayer var ts w) = None) = (mapRef w = None)
   \<and> storage_writes (calls (addOrUpdateWeatherLayer var ts w)) = storage_writes (calls w)"
proof (cases "mapRef w")
  case None
  then show ?thesis
    by (simp add: addOrUpdateWeatherLayer_def)
next
  case (Some m)
  show ?thesis
    by (simp add: addOrUpdateWeatherLayer_Some [OF Some] Some refresh_calls_def
        storage_writes_def)
qed

lemma update_layer_effect_frame:
  "localStorage (update_layer_effect w) = localStorage w
   \<and> mapboxToken (update_layer_effect w) = mapboxToken w
   \<and> (mapRef (update_layer_effect w) = None) = (mapRef w = None)
   \<and> storage_writes (calls (update_layer_effect w)) = storage_writes (calls w)"
  using refresh_frame [of "variable w" "timestep w" w]
  by (simp add: update_layer_effect_def)

lemma cleanup_frame:
  "localStorage (cleanup_map_effect w) = localStorage w
   \<and> mapboxToken (cleanup_map_effect w) = mapboxToken w
   \<and> mapRef (cleanup_map_effect w) = None
   \<and> variable (cleanup_map_effect w) = variable w
   \<and> timestep (cleanup_map_effect w) = timestep w
   \<and> storage_writes (calls (cleanup_map_effect w)) = storage_writes (calls w)"
  by (simp add: cleanup_map_effect_def storage_writes_def split: option.splits)

lemma init_frame:
  "localStorage (init_map_effect w) = localStorage w
   \<and> mapboxToken (init_map_effect w) = mapboxToken w
   \<and> variable (init_map_effect w) = variable w
   \<and> timestep (init_map_effect w) = timestep w
   \<and> (mapRef w = None \<longrightarrow> mapRef (init_map_effect w) \<noteq> None \<longrightarrow> truthy (mapboxToken w))
   \<and> storage_writes (calls (init_map_effect w)) = storage_writes (calls w)"
  by (simp add: init_map_effect_def storage_writes_def invoke_def Let_def truthy_def
      split: option.splits)

lemma on_style_load_frame:
  "localStorage (on_style_load var ts b w) = localStorage w
   \<and> mapboxToken (on_style_load var ts b w) = mapboxToken w
   \<and> (mapRef (on_style_load var ts b w) = None) = (mapRef w = None)
   \<and> storage_writes (calls (on_style_load var ts b w)) = storage_writes (calls w)"
proof (cases "mapRef w")
  case None
  then show ?thesis
    by (simp add: on_style_load_def)
next
  case (Some m)
  let ?w' = "w\<lparr>mapRef := Some (effect_of (Map_setFog fog_config b) m),
               calls := calls w @ [Map_setFog fog_config b]\<rparr>"
  have "on_style_load var ts b w = addOrUpdateWeatherLayer var ts ?w'"
    using Some by (simp add: on_style_load_def setFog_def invoke_def)
  then show ?thesis
    using refresh_frame [of var ts ?w'] Some by (simp add: storage_writes_def)
qed

lemma run_effects_frame:
  assumes "localStorage w' = localStorage w" and "calls w' = calls w"
  shows "localStorage (run_effects w w') = localStorage w
         \<and> mapboxToken (run_effects w w') = mapboxToken w'
         \<and> storage_writes (calls (run_effects w w')) = storage_writes (calls w)"
  using assms
    update_layer_effect_frame [of w']
    update_layer_effect_frame [of "init_map_effect (cleanup_map_effect w')"]
    init_frame [of "cleanup_map_effect w'"] cleanup_frame [of w']
  by (simp add: run_effects_def Let_def)


lemma run_effects_gate:
  assumes "mapboxToken w' = mapboxToken w \<Longrightarrow> token_gates_map w'"
  shows "token_gates_map (run_effects w w')"
proof (cases "mapboxToken w' = mapboxToken w")
  case True
  with assms have "token_gates_map w'"
    by simp
  with True show ?thesis
    using update_layer_effect_frame [of w']
    by (auto simp add: run_effects_def Let_def token_gates_map_def)
next
  case False
  let ?w1 = "init_map_effect (cleanup_map_effect w')"
  have "token_gates_map ?w1"
    using init_frame [of "cleanup_map_effect w'"] cleanup_frame [of w']
    by (auto simp add: token_gates_map_def)
  with False show ?thesis
    using update_layer_effect_frame [of ?w1]
    by (auto simp add: run_effects_def Let_def token_gates_map_def)
qed

lemma mount_gate: "token_gates_map (mount storage)"
proof -
  let ?w0 = "\<lparr>localStorage = storage, accessToken = None,
        calls = [LocalStorage_getItem ''MAPBOX_TOKEN''],
        mapContainer = True, mapRef = None,
        mapboxToken = storage ''MAPBOX_TOKEN'',
        variable = ''air_temperature'', timestep = 6\<rparr>"
  have "token_gates_map (init_map_effect ?w0)"
    using init_frame [of ?w0] by (auto simp add: token_gates_map_def)
  then show ?thesis
    using update_layer_effect_frame [of "init_map_effect ?w0"]
    by (auto simp add: mount_def token_gates_map_def)
qed

lemma dispatch_gate:
  assumes "token_gates_map w"
  shows "token_gates_map (dispatch e w)"
proof (cases e)
  case (Input_onChange s)
  have "token_gates_map (run_effects w (setMapboxToken s w))"
    by (rule run_effects_gate) (use assms in \<open>auto simp add: setMapboxToken_def token_gates_map_def\<close>)
  with Input_onChange show ?thesis
    by simp
next
  case Clear_onClick
  have "token_gates_map (run_effects w (setMapboxToken [] w))"
    by (rule run_effects_gate) (use assms in \<open>auto simp add: setMapboxToken_def token_gates_map_def\<close>)
  with Clear_onClick show ?thesis
    by simp
next
  case Save_onClick
  with assms show ?thesis
    by (auto simp add: saveToken_def token_gates_map_def split: option.splits)
next
  case (Select_onValueChange v)
  have "token_gates_map (run_effects w (setVariable v w))"
    by (rule run_effects_gate) (use assms in \<open>auto simp add: setVariable_def token_gates_map_def\<close>)
  with Select_onValueChange show ?thesis
    by simp
next
  case (Slider_onValueChange t)
  have "token_gates_map (run_effects w (setTimestep t w))"
    by (rule run_effects_gate) (use assms in \<open>auto simp add: setTimestep_def token_gates_map_def\<close>)
  with Slider_onValueChange show ?thesis
    by simp
next
  case (Style_load b)
  show ?thesis
  proof (cases "mapRef w")
    case None
    with Style_load assms show ?thesis
      by simp
  next
    case (Some m)
    show ?thesis
    proof (cases "style_load_listener m")
      case None
      with Some Style_load assms show ?thesis
        by simp
    next
      case (Some p)
      obtain var ts where p: "p = (var, ts)"
        by (cases p)
      from Some p \<open>mapRef w = Some m\<close> Style_load
      have "dispatch e w = on_style_load var ts b w"
        by simp
      with assms show ?thesis
        using on_style_load_frame [of var ts b w]
        by (auto simp add: token_gates_map_def)
    qed
  qed
next
  case Unmount
  then show ?thesis
    using cleanup_frame [of w] by (simp add: token_gates_map_def)
qed

lemma run_events_gate: "token_gates_map w \<Longrightarrow> token_gates_map (run_events es w)"
proof (induction es arbitrary: w)
  case Nil
  then show ?case
    by (simp add: run_events_def)
next
  case (Cons e es)
  from Cons.prems have "token_gates_map (dispatch e w)"
    by (rule dispatch_gate)
  then have "token_gates_map (run_events es (dispatch e w))"
    by (rule Cons.IH)
  then show ?case
    by (simp add: run_events_def)
qed

lemma dispatch_keeps_storage:
  assumes "e \<noteq> Save_onClick"
  shows "localStorage (dispatch e w) = localStorage w
         \<and> storage_writes (calls (dispatch e w)) = storage_writes (calls w)"
proof (cases e)
  case (Input_onChange s)
  then show ?thesis
    using run_effects_frame [of "setMapboxToken s w" w]
    by (simp add: setMapboxToken_def)
next
  case Clear_onClick
  then show ?thesis
    using run_effects_frame [of "setMapboxToken [] w" w]
    by (simp add: setMapboxToken_def)
next
  case Save_onClick
  with assms show ?thesis
    by simp
next
  case (Select_onValueChange v)
  then show ?thesis
    using run_effects_frame [of "setVariable v w" w]
    by (simp add: setVariable_def)
next
  case (Slider_onValueChange t)
  then show ?thesis
    using run_effects_frame [of "setTimestep t w" w]
    by (simp add: setTimestep_def)
next
  case (Style_load b)
  show ?thesis
  proof (cases "mapRef w")
    case None
    with Style_load show ?thesis
      by simp
  next
    case (Some m)
    show ?thesis
    proof (cases "style_load_listener m")
      case None
      with Some Style_load show ?thesis
        by simp
    next
      case (Some p)
      obtain var ts where p: "p = (var, ts)"
        by (cases p)
      from Some p \<open>mapRef w = Some m\<close> Style_load
      have "dispatch e w = on_style_load var ts b w"
        by simp
      then show ?thesis
        using on_style_load_frame [of var ts b w] by simp
    qed
  qed
next
  case Unmount
  then show ?thesis
    using cleanup_frame [of w] by simp
qed

lemma mount_keeps_storage:
  "localStorage (mount storage) = storage \<and> storage_writes (calls (mount storage)) = []"
proof -
  let ?w0 = "\<lparr>localStorage = storage, accessToken = None,
        calls = [LocalStorage_getItem ''MAPBOX_TOKEN''],
        mapContainer = True, mapRef = None,
        mapboxToken = storage ''MAPBOX_TOKEN'',
        variable = ''air_temperature'', timestep = 6\<rparr>"
  show ?thesis
    using init_frame [of ?w0] update_layer_effect_frame [of "init_map_effect ?w0"]
    by (simp add: mount_def storage_writes_def)
qed

lemma mount_reads_storage: "mapboxToken (mount storage) = storage ''MAPBOX_TOKEN''"
proof -
  let ?w0 = "\<lparr>localStorage = storage, accessToken = None,
        calls = [LocalStorage_getItem ''MAPBOX_TOKEN''],
        mapContainer = True, mapRef = None,
        mapboxToken = storage ''MAPBOX_TOKEN'',
        variable = ''air_temperature'', timestep = 6\<rparr>"
  show ?thesis
    using init_frame [of ?w0] update_layer_effect_frame [of "init_map_effect ?w0"]
    by (simp add: mount_def)
qed


text \<open>
  Claim C6. With a non-empty token in memory, Save writes that token to persistent
  storage under \<^verbatim>\<open>MAPBOX_TOKEN\<close> and then reloads the page, in this order and with no other
  call. No other event writes to persistent storage: each leaves the storage as it was
  and adds no write to the log, and so does mounting.
\<close>

theorem save_writes_token_then_reloads:
  assumes "mapboxToken w = Some tok" and "tok \<noteq> []"
  shows "saveToken w =
           w\<lparr>localStorage := (localStorage w)(''MAPBOX_TOKEN'' \<mapsto> tok),
             calls := calls w @ [LocalStorage_setItem ''MAPBOX_TOKEN'' tok, Location_reload]\<rparr>
         \<and> dispatch Save_onClick w = saveToken w
         \<and> localStorage (saveToken w) ''MAPBOX_TOKEN'' = Some tok
         \<and> issued w (saveToken w) = [LocalStorage_setItem ''MAPBOX_TOKEN'' tok, Location_reload]
         \<and> (e \<noteq> Save_onClick \<longrightarrow>
               localStorage (dispatch e w') = localStorage w'
               \<and> storage_writes (calls (dispatch e w')) = storage_writes (calls w'))
         \<and> localStorage (mount storage) = storage
         \<and> storage_writes (calls (mount storage)) = []"
proof -
  from assms have a: "saveToken w =
           w\<lparr>localStorage := (localStorage w)(''MAPBOX_TOKEN'' \<mapsto> tok),
             calls := calls w @ [LocalStorage_setItem ''MAPBOX_TOKEN'' tok, Location_reload]\<rparr>"
    by (simp add: saveToken_def)
  have b: "dispatch Save_onClick w = saveToken w"
    by simp
  have c: "localStorage (saveToken w) ''MAPBOX_TOKEN'' = Some tok"
    by (simp add: a)
  have d: "issued w (saveToken w) = [LocalStorage_setItem ''MAPBOX_TOKEN'' tok, Location_reload]"
    by (simp add: a issued_def)
  from a b c d dispatch_keeps_storage [of e w'] mount_keeps_storage [of storage]
  show ?thesis
    by blast
qed

theorem save_writes_token_then_reloads_witness:
  "mapboxToken demo_world = Some ''pk.demo'' \<and> ''pk.demo'' \<noteq> []
   \<and> localStorage (saveToken demo_world) ''MAPBOX_TOKEN'' = Some ''pk.demo''
   \<and> issued demo_world (saveToken demo_world) =
       [LocalStorage_setItem ''MAPBOX_TOKEN'' ''pk.demo'', Location_reload]
   \<and> Clear_onClick \<noteq> Save_onClick
   \<and> localStorage (dispatch Clear_onClick demo_world) = localStorage demo_world
   \<and> storage_writes (calls (dispatch Clear_onClick demo_world)) =
       storage_writes (calls demo_world)"
proof -
  have t: "mapboxToken demo_world = Some ''pk.demo''"
    by (simp add: demo_world_def)
  have n: "''pk.demo'' \<noteq> []"
    by simp
  have e: "Clear_onClick \<noteq> Save_onClick"
    by simp
  from save_writes_token_then_reloads [OF t n, of Clear_onClick demo_world] t n e
  show ?thesis
    by blast
qed

text \<open>
  Claim C10. With the token in memory null or empty, Save changes nothing: the state
  it returns is the state it was given, so persistent storage is as before and no
  call, in particular no reload, is issued.
\<close>

theorem save_without_token_is_noop:
  assumes "\<not> truthy (mapboxToken w)"
  shows "saveToken w = w
         \<and> dispatch Save_onClick w = w
         \<and> localStorage (dispatch Save_onClick w) = localStorage w
         \<and> issued w (dispatch Save_onClick w) = []"
  using assms by (simp add: saveToken_def truthy_def issued_def split: option.splits)

theorem save_without_token_is_noop_witness:
  "\<not> truthy (mapboxToken (demo_world\<lparr>mapboxToken := None\<rparr>))
   \<and> saveToken (demo_world\<lparr>mapboxToken := None\<rparr>) = demo_world\<lparr>mapboxToken := None\<rparr>
   \<and> \<not> truthy (mapboxToken (demo_world\<lparr>mapboxToken := Some []\<rparr>))
   \<and> saveToken (demo_world\<lparr>mapboxToken := Some []\<rparr>) = demo_world\<lparr>mapboxToken := Some []\<rparr>
   \<and> issued (demo_world\<lparr>mapboxToken := Some []\<rparr>)
        (dispatch Save_onClick (demo_world\<lparr>mapboxToken := Some []\<rparr>)) = []"
proof -
  have a: "\<not> truthy (mapboxToken (demo_world\<lparr>mapboxToken := None\<rparr>))"
    by (simp add: truthy_def)
  have b: "\<not> truthy (mapboxToken (demo_world\<lparr>mapboxToken := Some []\<rparr>))"
    by (simp add: truthy_def)
  from save_without_token_is_noop [OF a] save_without_token_is_noop [OF b] a b
  show ?thesis
    by blast
qed

text \<open>
  Claim C7. In every state the widget reaches from a mount in which the token form is
  shown (the token is falsy), Clear changes the token cell to the empty string and
  nothing else; the form is rendered again with an empty field; persistent storage and
  the log of calls are as before; and a later mount over that storage reads the
  persisted token back. In any state at all, Clear leaves persistent storage alone,
  adds no storage write, and leaves the empty string in the token cell.
\<close>

theorem clear_keeps_persisted_token:
  assumes "w = run_events es (mount storage)" and "\<not> truthy (mapboxToken w)"
  shows "dispatch Clear_onClick w = w\<lparr>mapboxToken := Some []\<rparr>
         \<and> localStorage (dispatch Clear_onClick w) = localStorage w
         \<and> calls (dispatch Clear_onClick w) = calls w
         \<and> hd (render (dispatch Clear_onClick w)) =
             TokenForm \<lparr>input_placeholder = ''pk.eyJ1Ijo...'', input_value = [],
                        buttons = [''Clear'', ''Save token'']\<rparr>
         \<and> mapboxToken (mount (localStorage (dispatch Clear_onClick w))) =
             localStorage w ''MAPBOX_TOKEN''
         \<and> localStorage (dispatch Clear_onClick w') = localStorage w'
         \<and> storage_writes (calls (dispatch Clear_onClick w')) = storage_writes (calls w')
         \<and> mapboxToken (dispatch Clear_onClick w') = Some []"
proof -
  have "token_gates_map w"
    unfolding assms(1) by (rule run_events_gate) (rule mount_gate)
  with assms(2) have nomap: "mapRef w = None"
    by (simp add: token_gates_map_def)
  have a: "dispatch Clear_onClick w = w\<lparr>mapboxToken := Some []\<rparr>"
  proof (cases "mapboxToken w = Some []")
    case True
    then have "w\<lparr>mapboxToken := Some []\<rparr> = w"
      by (cases w) simp
    with True show ?thesis
      by (simp add: run_effects_def setMapboxToken_def)
  next
    case False
    with nomap show ?thesis
      by (simp add: run_effects_def setMapboxToken_def cleanup_map_effect_def
          init_map_effect_def)
  qed
  have b: "localStorage (dispatch Clear_onClick w) = localStorage w"
    by (simp only: a) simp
  have c: "calls (dispatch Clear_onClick w) = calls w"
    by (simp only: a) simp
  have d: "hd (render (dispatch Clear_onClick w)) =
             TokenForm \<lparr>input_placeholder = ''pk.eyJ1Ijo...'', input_value = [],
                        buttons = [''Clear'', ''Save token'']\<rparr>"
    by (simp only: a) (simp add: render_def truthy_def)
  have e: "mapboxToken (mount (localStorage (dispatch Clear_onClick w))) =
             localStorage w ''MAPBOX_TOKEN''"
    by (simp only: b mount_reads_storage)
  have f: "mapboxToken (dispatch Clear_onClick w') = Some []"
    using run_effects_frame [of "setMapboxToken [] w'" w']
    by (simp add: setMapboxToken_def)
  have g: "Clear_onClick \<noteq> Save_onClick"
    by simp
  from a b c d e f dispatch_keeps_storage [OF g, of w'] show ?thesis
    by blast
qed

theorem clear_keeps_persisted_token_witness:
  "\<not> truthy (mapboxToken
        (run_events [Input_onChange []] (mount [''MAPBOX_TOKEN'' \<mapsto> ''pk.demo''])))
   \<and> localStorage (dispatch Clear_onClick
        (run_events [Input_onChange []] (mount [''MAPBOX_TOKEN'' \<mapsto> ''pk.demo''])))
        ''MAPBOX_TOKEN'' = Some ''pk.demo''
   \<and> mapboxToken (dispatch Clear_onClick
        (run_events [Input_onChange []] (mount [''MAPBOX_TOKEN'' \<mapsto> ''pk.demo'']))) = Some []
   \<and> mapboxToken (mount (localStorage (dispatch Clear_onClick
        (run_events [Input_onChange []] (mount [''MAPBOX_TOKEN'' \<mapsto> ''pk.demo''])))))
       = Some ''pk.demo''"
proof -
  let ?s = "[''MAPBOX_TOKEN'' \<mapsto> ''pk.demo'']"
  let ?w = "run_events [Input_onChange []] (mount ?s)"
  have w: "?w = dispatch (Input_onChange []) (mount ?s)"
    by (simp add: run_events_def)
  have tok: "mapboxToken ?w = Some []"
    using run_effects_frame [of "setMapboxToken [] (mount ?s)" "mount ?s"]
    by (simp add: w setMapboxToken_def)
  have falsy: "\<not> truthy (mapboxToken ?w)"
    by (simp add: tok truthy_def)
  have "Input_onChange [] \<noteq> Save_onClick"
    by simp
  from dispatch_keeps_storage [OF this, of "mount ?s"] mount_keeps_storage [of ?s]
  have st: "localStorage ?w = ?s"
    by (simp add: w)
  note th = clear_keeps_persisted_token [OF refl falsy, of "?w"]
  from th have a0: "localStorage (dispatch Clear_onClick ?w) = localStorage ?w"
    by blast
  have a1: "localStorage (dispatch Clear_onClick ?w) = ?s"
    by (simp only: a0 st)
  have a: "localStorage (dispatch Clear_onClick ?w) ''MAPBOX_TOKEN'' = Some ''pk.demo''"
    by (simp only: a1) simp
  from th have b: "mapboxToken (dispatch Clear_onClick ?w) = Some []"
    by blast
  from th have c0: "mapboxToken (mount (localStorage (dispatch Clear_onClick ?w))) =
      localStorage ?w ''MAPBOX_TOKEN''"
    by blast
  have c: "mapboxToken (mount (localStorage (dispatch Clear_onClick ?w))) = Some ''pk.demo''"
    by (simp only: c0 st) simp
  from falsy a b c show ?thesis
    by blast
qed

end
